theory Spec2Isabelle
  imports Complex_Main "HOL-Library.Log_Nat" "HOL-Library.Sublist"
begin

section \<open>The Indeed scraper of JobFunnel (jobfunnel/backend/scrapers/indeed.py)\<close>

text \<open>
  A shallow embedding of \<^verbatim>\<open>BaseIndeedScraper\<close>. Python exceptions are values of
  \<open>error\<close>; a method that may raise returns \<open>error + 'a\<close>, with \<open>Inl\<close> the
  exception. Python's \<^verbatim>\<open>str\<close> is \<open>string\<close>: the characters of the model are the
  256 code points below U+0100 only.
\<close>

subsection \<open>Exceptions\<close>

datatype error =
    ValueError string
  | NotImplementedError string
  | AssertionError
  | AttributeError
  | IndexError
  | KeyError
  | TypeError
  | ZeroDivisionError
  | OverflowError
  | RequestException string

subsection \<open>Strings\<close>

text \<open>\<^verbatim>\<open>str(n)\<close> for an integer: decimal digits, a minus sign when negative.\<close>

definition digit_char :: "nat \<Rightarrow> char" where
  "digit_char d = ''0123456789'' ! d"

function str_nat :: "nat \<Rightarrow> string" where
  "str_nat n = (if n < 10 then [digit_char n] else str_nat (n div 10) @ [digit_char (n mod 10)])"
  by pat_completeness auto
termination
  by (relation "measure id") auto

declare str_nat.simps [simp del]

definition str_int :: "int \<Rightarrow> string" where
  "str_int i = (if i < 0 then CHR ''-'' # str_nat (nat (- i)) else str_nat (nat i))"

text \<open>\<^verbatim>\<open>s.replace(' ', '+')\<close> and \<^verbatim>\<open>s.replace(',', '')\<close> on single characters.\<close>

definition replace_char :: "char \<Rightarrow> string \<Rightarrow> string \<Rightarrow> string" where
  "replace_char old new s = concat (map (\<lambda>c. if c = old then new else [c]) s)"

text \<open>
  \<^verbatim>\<open>s.upper()\<close>: the letters a to z are mapped to A to Z. The other characters are left
  as they are (Python also maps letters beyond ASCII, which the model does not follow).
\<close>

definition upper_char :: "char \<Rightarrow> char" where
  "upper_char c =
     (case map_of (zip ''abcdefghijklmnopqrstuvwxyz'' ''ABCDEFGHIJKLMNOPQRSTUVWXYZ'') c of
        Some u \<Rightarrow> u
      | None \<Rightarrow> c)"

definition upper :: "string \<Rightarrow> string" where
  "upper s = map upper_char s"

text \<open>\<^verbatim>\<open>'+'.join(xs)\<close>.\<close>

fun join :: "string \<Rightarrow> string list \<Rightarrow> string" where
  "join sep [] = []"
| "join sep [x] = x"
| "join sep (x # y # ys) = x @ sep @ join sep (y # ys)"

text \<open>
  \<^verbatim>\<open>s.strip()\<close> removes leading and trailing whitespace: the characters for which
  \<^verbatim>\<open>str.isspace\<close> holds, here those below U+0100.
\<close>

definition isspace :: "char \<Rightarrow> bool" where
  "isspace c \<longleftrightarrow> (of_char c :: nat) \<in> {9, 10, 11, 12, 13, 28, 29, 30, 31, 32, 133, 160}"

definition strip :: "string \<Rightarrow> string" where
  "strip s = rev (dropWhile isspace (rev (dropWhile isspace s)))"

subsection \<open>Module constants\<close>

definition MAX_RESULTS_PER_INDEED_PAGE :: int where
  "MAX_RESULTS_PER_INDEED_PAGE = 50"

definition FULLY_REMOTE_MAGIC_STRING :: string where
  "FULLY_REMOTE_MAGIC_STRING = ''&remotejob=032b3046-06a3-4876-8dfd-474eb5e7ed11''"

definition COVID_REMOTE_MAGIC_STRING :: string where
  "COVID_REMOTE_MAGIC_STRING = ''&remotejob=7e3167e4-ccb4-49cb-b761-9bae564a0a63''"

text \<open>
  The members of \<^verbatim>\<open>Remoteness\<close> that the module names. \<^verbatim>\<open>UNKNOWN\<close> is what
  \<^verbatim>\<open>get(JobField.REMOTENESS, ...)\<close> returns by default; it is no key of
  \<^verbatim>\<open>REMOTENESS_TO_QUERY\<close>.
\<close>

datatype Remoteness =
  UNKNOWN | IN_PERSON | TEMPORARILY_REMOTE | PARTIALLY_REMOTE | FULLY_REMOTE | ANY

fun REMOTENESS_TO_QUERY :: "Remoteness \<Rightarrow> string option" where
  "REMOTENESS_TO_QUERY IN_PERSON = Some []"
| "REMOTENESS_TO_QUERY TEMPORARILY_REMOTE = Some COVID_REMOTE_MAGIC_STRING"
| "REMOTENESS_TO_QUERY PARTIALLY_REMOTE = Some []"
| "REMOTENESS_TO_QUERY FULLY_REMOTE = Some FULLY_REMOTE_MAGIC_STRING"
| "REMOTENESS_TO_QUERY ANY = Some []"
| "REMOTENESS_TO_QUERY UNKNOWN = None"

subsection \<open>Parsed documents\<close>

text \<open>
  What \<^verbatim>\<open>BeautifulSoup(text, parser)\<close> returns: a tree of tags and strings. The
  \<^verbatim>\<open>BeautifulSoup\<close> object itself is the root tag. The attributes of a tag are kept as
  an association list, read with \<open>map_of\<close>.
\<close>

datatype node =
    NavigableString string
  | Tag string "(string \<times> string) list" "node list"

text \<open>\<^verbatim>\<open>tag.descendants\<close>: every node below the tag, in document order.\<close>

fun descendants :: "node \<Rightarrow> node list" where
  "descendants (NavigableString s) = []"
| "descendants (Tag nm attrs cs) = concat (map (\<lambda>c. c # descendants c) cs)"

definition has_attr :: "string \<Rightarrow> string \<Rightarrow> node \<Rightarrow> bool" where
  "has_attr k v n = (case n of NavigableString s \<Rightarrow> False | Tag nm attrs cs \<Rightarrow> map_of attrs k = Some v)"

definition has_name :: "string \<Rightarrow> node \<Rightarrow> bool" where
  "has_name x n = (case n of NavigableString s \<Rightarrow> False | Tag nm attrs cs \<Rightarrow> nm = x)"

text \<open>\<^verbatim>\<open>soup.find(id=x)\<close>: the first tag below \<open>soup\<close> whose attribute \<open>id\<close> is \<open>x\<close>.\<close>

definition find_id :: "string \<Rightarrow> node \<Rightarrow> node option" where
  "find_id x soup = List.find (has_attr ''id'' x) (descendants soup)"

text \<open>\<^verbatim>\<open>soup.find_all(nm, attrs={k: v})\<close>.\<close>

definition find_all :: "string \<Rightarrow> string \<Rightarrow> string \<Rightarrow> node \<Rightarrow> node list" where
  "find_all nm k v soup = filter (\<lambda>n. has_name nm n \<and> has_attr k v n) (descendants soup)"

text \<open>
  \<^verbatim>\<open>tag.text\<close>: the strings below the tag, concatenated. The documents of the model hold
  plain strings only; comments and the contents of script, style and template tags, which
  \<^verbatim>\<open>tag.text\<close> leaves out, are not modelled.
\<close>

definition get_text :: "node \<Rightarrow> string" where
  "get_text n =
     concat (map (\<lambda>d. case d of NavigableString s \<Rightarrow> s | Tag nm attrs cs \<Rightarrow> []) (descendants n))"

subsection \<open>Configuration and scraper object\<close>

text \<open>
  The fields of \<^verbatim>\<open>config.search_config\<close> that the scraper reads (\<open>keywords_list\<close> is
  the field \<^verbatim>\<open>keywords\<close>), and of \<^verbatim>\<open>config\<close>. The field \<open>bs4_parser\<close> stands for the
  parser that the name \<^verbatim>\<open>config.bs4_parser\<close> selects: it is the function from a response
  text to the document \<^verbatim>\<open>BeautifulSoup(text, config.bs4_parser)\<close>.
\<close>

record SearchConfig =
  keywords_list :: "string list"
  city :: string
  province_or_state :: string
  domain :: string
  radius :: int
  remoteness :: Remoteness
  return_similar_results :: bool

record JobFunnelConfigManager =
  search_config :: SearchConfig
  bs4_parser :: "string \<Rightarrow> node"

record scraper =
  config :: JobFunnelConfigManager
  max_results_per_page :: int
  query :: string

text \<open>\<^verbatim>\<open>BaseIndeedScraper.__init__\<close>.\<close>

definition BaseIndeedScraper :: "JobFunnelConfigManager \<Rightarrow> scraper" where
  "BaseIndeedScraper cfg =
     \<lparr>config = cfg,
      max_results_per_page = MAX_RESULTS_PER_INDEED_PAGE,
      query = join ''+'' (keywords_list (search_config cfg))\<rparr>"

text \<open>
  The session: \<open>web\<close> is what a GET of a URL yields, the text of the response or the
  exception that \<^verbatim>\<open>session.get\<close> raises; \<open>requested\<close> is the list of the URLs requested
  so far, the oldest first.
\<close>

record session =
  web :: "string \<Rightarrow> error + string"
  requested :: "string list"

definition session_get :: "session \<Rightarrow> string \<Rightarrow> (error + string) \<times> session" where
  "session_get s u = (web s u, s\<lparr>requested := requested s @ [u]\<rparr>)"

text \<open>\<^verbatim>\<open>str(x)\<close> of an optional string, as an f-string and \<^verbatim>\<open>requests\<close> render it.\<close>

definition str_opt :: "string option \<Rightarrow> string" where
  "str_opt x = (case x of None \<Rightarrow> ''None'' | Some s \<Rightarrow> s)"

subsection \<open>Radius quantization\<close>

definition quantize_radius :: "int \<Rightarrow> int" where
  "quantize_radius r =
     (if r < 5 then 0
      else if 5 \<le> r \<and> r < 10 then 5
      else if 10 \<le> r \<and> r < 15 then 10
      else if 15 \<le> r \<and> r < 25 then 15
      else if 25 \<le> r \<and> r < 50 then 25
      else if 50 \<le> r \<and> r < 100 then 50
      else 100)"

text \<open>
  The table of the specification: half-open intervals \<open>[lo, hi)\<close> with the value of each,
  \<open>None\<close> for an interval without upper end.
\<close>

definition radius_table :: "(int \<times> int option \<times> int) list" where
  "radius_table =
     [(0, Some 5, 0), (5, Some 10, 5), (10, Some 15, 10), (15, Some 25, 15),
      (25, Some 50, 25), (50, Some 100, 50), (100, None, 100)]"

fun in_interval :: "int \<Rightarrow> int \<times> int option \<times> int \<Rightarrow> bool" where
  "in_interval r (lo, None, v) \<longleftrightarrow> lo \<le> r"
| "in_interval r (lo, Some hi, v) \<longleftrightarrow> lo \<le> r \<and> r < hi"

definition table_values :: "int \<Rightarrow> int list" where
  "table_values r = map (\<lambda>(lo, hi, v). v) (filter (in_interval r) radius_table)"

subsection \<open>Search URL\<close>

definition get_search_url :: "scraper \<Rightarrow> string option \<Rightarrow> error + string" where
  "get_search_url self method =
     (let sc = search_config (config self) in
      if method = Some ''get'' then
        (case REMOTENESS_TO_QUERY (remoteness sc) of
           None \<Rightarrow> Inl KeyError
         | Some remote_query \<Rightarrow>
             Inr (''https://www.indeed.'' @ domain sc @ ''/jobs?q='' @ query self
                  @ ''&l='' @ replace_char CHR '' '' ''+'' (city sc)
                  @ ''%2C+'' @ upper (province_or_state sc)
                  @ ''&radius='' @ str_int (quantize_radius (radius sc))
                  @ ''&limit='' @ str_int (max_results_per_page self)
                  @ ''&filter='' @ str_int (if return_similar_results sc then 1 else 0)
                  @ remote_query))
      else if method = Some ''post'' then Inl (NotImplementedError [])
      else Inl (ValueError (''No html method '' @ str_opt method @ '' exists'')))"

subsection \<open>Result count\<close>

text \<open>
  \<^verbatim>\<open>re.findall(r'f (\d+) ', s)\<close>: the matches are found from left to right and do
  not overlap; each is the letter f, a space, the longest run of digits (not empty) and
  a space, and contributes the run of digits. Below U+0100 the class \<^verbatim>\<open>\d\<close> is the ten
  ASCII digits.
\<close>

definition isdigit :: "char \<Rightarrow> bool" where
  "isdigit c \<longleftrightarrow> c \<in> set ''0123456789''"

function findall_f_digits :: "string \<Rightarrow> string list" where
  "findall_f_digits [] = []"
| "findall_f_digits (c # cs) =
     (if c = CHR ''f'' \<and> take 1 cs = '' '' \<and> takeWhile isdigit (drop 1 cs) \<noteq> []
         \<and> take 1 (dropWhile isdigit (drop 1 cs)) = '' ''
      then takeWhile isdigit (drop 1 cs) # findall_f_digits (drop 1 (dropWhile isdigit (drop 1 cs)))
      else findall_f_digits cs)"
  by pat_completeness auto
termination
proof (relation "measure length")
  show "wf (measure length)"
    by simp
next
  fix c :: char and cs :: string
  have "length (dropWhile isdigit (drop 1 cs)) \<le> length (drop 1 cs)"
    by (rule length_dropWhile_le)
  then show "(drop 1 (dropWhile isdigit (drop 1 cs)), c # cs) \<in> measure length"
    by simp
next
  fix c :: char and cs :: string
  show "(cs, c # cs) \<in> measure length"
    by simp
qed

text \<open>
  \<^verbatim>\<open>int(s)\<close> on a run of ASCII digits. The limit that CPython puts on the length of the
  run from version 3.11 on (4300 digits unless configured otherwise, \<^verbatim>\<open>ValueError\<close> beyond)
  is not modelled.
\<close>

definition digit_val :: "char \<Rightarrow> int" where
  "digit_val c = int (of_char c) - 48"

definition int_of_digits :: "string \<Rightarrow> int" where
  "int_of_digits s = foldl (\<lambda>a c. 10 * a + digit_val c) 0 s"

text \<open>
  \<^verbatim>\<open>a / b\<close> on two integers is a float: the quotient rounded to the nearest binary64
  value, ties to the even significand, and \<^verbatim>\<open>OverflowError\<close> when that value is beyond
  the largest float. A float is modelled by the rational number it stands for.
  \<open>binary_exponent q\<close> is the \<open>e\<close> with \<open>2\<^sup>e \<le> q < 2\<^sup>e\<^sup>+\<^sup>1\<close> for \<open>q > 0\<close>; a binary64
  value has a significand of 53 bits and no exponent below -1022.
\<close>

definition round_half_even :: "rat \<Rightarrow> int" where
  "round_half_even x =
     (let f = \<lfloor>x\<rfloor>; d = x - of_int f in
      if d < 1 / 2 then f else if 1 / 2 < d then f + 1 else if even f then f else f + 1)"

definition binary_exponent :: "rat \<Rightarrow> int" where
  "binary_exponent q =
     (let (n, d) = quotient_of q; k = bitlen n - bitlen d in
      if 2 powi k \<le> q then k else k - 1)"

definition nearest_binary64 :: "rat \<Rightarrow> rat" where
  "nearest_binary64 q =
     (let e = max (binary_exponent q) (- 1022) in
      of_int (round_half_even (q * 2 powi (52 - e))) * 2 powi (e - 52))"

definition true_divide :: "int \<Rightarrow> int \<Rightarrow> error + rat" where
  "true_divide a b =
     (if b = 0 then Inl ZeroDivisionError
      else if a = 0 then Inr 0
      else let r = nearest_binary64 \<bar>of_int a / of_int b\<bar> in
        if 2 ^ 1024 \<le> r then Inl OverflowError
        else Inr (if (a < 0) = (b < 0) then r else - r))"

text \<open>\<^verbatim>\<open>num_res.contents[0].strip()\<close>: the first child must exist and be a string.\<close>

definition first_content_stripped :: "node \<Rightarrow> error + string" where
  "first_content_stripped num_res =
     (case num_res of
        NavigableString s \<Rightarrow> Inl AttributeError
      | Tag nm attrs [] \<Rightarrow> Inl IndexError
      | Tag nm attrs (NavigableString s # cs) \<Rightarrow> Inr (strip s)
      | Tag nm attrs (Tag nm' attrs' cs' # cs) \<Rightarrow> Inl TypeError)"

text \<open>\<^verbatim>\<open>int(re.findall(r'f (\d+) ', num_res.replace(',', ''))[0])\<close>.\<close>

definition parse_num_res :: "string \<Rightarrow> error + int" where
  "parse_num_res num_res =
     (case findall_f_digits (replace_char CHR '','' [] num_res) of
        [] \<Rightarrow> Inl IndexError
      | ds # rest \<Rightarrow> Inr (int_of_digits ds))"

text \<open>The last five lines of \<^verbatim>\<open>_get_num_search_result_pages\<close>, from the parsed count on.\<close>

definition pages_of_num_res :: "scraper \<Rightarrow> int \<Rightarrow> int \<Rightarrow> error + int" where
  "pages_of_num_res self num_res max_pages =
     (case true_divide num_res (max_results_per_page self) of
        Inl e \<Rightarrow> Inl e
      | Inr q \<Rightarrow>
          (let number_of_pages = \<lceil>q\<rceil> in
           if max_pages = 0 \<or> number_of_pages < max_pages then Inr number_of_pages
           else Inr max_pages))"

definition no_results_message :: "string \<Rightarrow> string" where
  "no_results_message search_url =
     ''Unable to identify number of pages of results for query: '' @ search_url
     @ '' Please ensure linked page contains results, you may have provided a city for which there are no results within this province or state.''"

definition get_num_search_result_pages ::
  "scraper \<Rightarrow> string \<Rightarrow> int \<Rightarrow> session \<Rightarrow> (error + int) \<times> session" where
  "get_num_search_result_pages self search_url max_pages s =
     (case session_get s search_url of
        (Inl e, s') \<Rightarrow> (Inl e, s')
      | (Inr request_html, s') \<Rightarrow>
          (case find_id ''searchCountPages'' (bs4_parser (config self) request_html) of
             None \<Rightarrow> (Inl (ValueError (no_results_message search_url)), s')
           | Some num_res \<Rightarrow>
               (case first_content_stripped num_res of
                  Inl e \<Rightarrow> (Inl e, s')
                | Inr txt \<Rightarrow>
                    (case parse_num_res txt of
                       Inl e \<Rightarrow> (Inl e, s')
                     | Inr n \<Rightarrow> (pages_of_num_res self n max_pages, s')))))"

subsection \<open>Fetching the result pages\<close>

text \<open>
  \<^verbatim>\<open>_get_job_soups_from_search_page\<close>, one task of the thread pool: it changes the session
  (one request) and \<^verbatim>\<open>job_soup_list\<close> (extended in place). When \<^verbatim>\<open>session.get\<close> raises,
  the list is left as it was.
\<close>

definition get_job_soups_from_search_page ::
  "scraper \<Rightarrow> string \<Rightarrow> int \<Rightarrow> session \<times> node list \<Rightarrow> (error + unit) \<times> session \<times> node list" where
  "get_job_soups_from_search_page self search page st =
     (case st of (s, job_soup_list) \<Rightarrow>
        (case session_get s (search @ ''&start='' @ str_int (page * max_results_per_page self)) of
           (Inl e, s') \<Rightarrow> (Inl e, s', job_soup_list)
         | (Inr txt, s') \<Rightarrow>
             (Inr (), s',
              job_soup_list
              @ find_all ''div'' ''data-tn-component'' ''organicJob'' (bs4_parser (config self) txt))))"

text \<open>
  The pool runs one task for each page it is given; \<^verbatim>\<open>wait(futures)\<close> waits for all of them
  and reads no result, so an exception raised in a task stays in its future. The tasks
  are run one after the other here, in the order of the list.
\<close>

fun run_tasks :: "scraper \<Rightarrow> string \<Rightarrow> int list \<Rightarrow> session \<times> node list \<Rightarrow> session \<times> node list" where
  "run_tasks self search [] st = st"
| "run_tasks self search (page # pages) st =
     run_tasks self search pages (snd (get_job_soups_from_search_page self search page st))"

text \<open>\<^verbatim>\<open>range(n)\<close>.\<close>

definition range_int :: "int \<Rightarrow> int list" where
  "range_int n = [0..n - 1]"

definition get_job_soups_from_search_result_listings ::
  "scraper \<Rightarrow> session \<Rightarrow> (error + node list) \<times> session" where
  "get_job_soups_from_search_result_listings self s =
     (case get_search_url self (Some ''get'') of
        Inl e \<Rightarrow> (Inl e, s)
      | Inr search_url \<Rightarrow>
          (case get_num_search_result_pages self search_url 0 s of
             (Inl e, s') \<Rightarrow> (Inl e, s')
           | (Inr pages, s') \<Rightarrow>
               (case run_tasks self search_url (range_int pages) (s', []) of
                  (s'', job_soup_list) \<Rightarrow> (Inr job_soup_list, s''))))"

subsection \<open>Setting the fields of a job\<close>

datatype JobField =
  TITLE | COMPANY | LOCATION | TAGS | REMOTENESS | WAGE | POST_DATE | KEY_ID | URL | RAW
  | DESCRIPTION

fun JobField_name :: "JobField \<Rightarrow> string" where
  "JobField_name TITLE = ''TITLE''"
| "JobField_name COMPANY = ''COMPANY''"
| "JobField_name LOCATION = ''LOCATION''"
| "JobField_name TAGS = ''TAGS''"
| "JobField_name REMOTENESS = ''REMOTENESS''"
| "JobField_name WAGE = ''WAGE''"
| "JobField_name POST_DATE = ''POST_DATE''"
| "JobField_name KEY_ID = ''KEY_ID''"
| "JobField_name URL = ''URL''"
| "JobField_name RAW = ''RAW''"
| "JobField_name DESCRIPTION = ''DESCRIPTION''"

text \<open>
  The attributes of a \<^verbatim>\<open>Job\<close> that \<^verbatim>\<open>set\<close> reads or writes; \<open>raw_scrape_data\<close> is
  \<^verbatim>\<open>_raw_scrape_data\<close>. An attribute may be \<^verbatim>\<open>None\<close>. Every other attribute of the job
  is in the extension part of the record.
\<close>

record Job =
  key_id :: "string option"
  url :: "string option"
  raw_scrape_data :: "node option"
  description :: "string option"

text \<open>The truth value of an optional string: \<^verbatim>\<open>None\<close> and the empty string are false.\<close>

definition truthy :: "string option \<Rightarrow> bool" where
  "truthy x \<longleftrightarrow> x \<noteq> None \<and> x \<noteq> Some []"

definition set_field ::
  "scraper \<Rightarrow> JobField \<Rightarrow> 'a Job_scheme \<Rightarrow> node \<Rightarrow> session \<Rightarrow> (error + 'a Job_scheme) \<times> session" where
  "set_field self parameter job soup s =
     (if parameter = RAW then
        (case session_get s (str_opt (url job)) of
           (Inl e, s') \<Rightarrow> (Inl e, s')
         | (Inr txt, s') \<Rightarrow> (Inr (job\<lparr>raw_scrape_data := Some (bs4_parser (config self) txt)\<rparr>), s'))
      else if parameter = DESCRIPTION then
        (case raw_scrape_data job of
           None \<Rightarrow> (Inl AssertionError, s)
         | Some raw \<Rightarrow>
             (case find_id ''jobDescriptionText'' raw of
                None \<Rightarrow> (Inl AttributeError, s)
              | Some d \<Rightarrow> (Inr (job\<lparr>description := Some (strip (get_text d))\<rparr>), s)))
      else if parameter = URL then
        (if \<not> truthy (key_id job) then (Inl AssertionError, s)
         else (Inr (job\<lparr>url := Some (''http://www.indeed.'' @ domain (search_config (config self))
                                      @ ''/viewjob?jk='' @ str_opt (key_id job))\<rparr>), s))
      else (Inl (NotImplementedError (''Cannot set '' @ JobField_name parameter)), s))"

subsection \<open>A concrete scraper, document and session\<close>

text \<open>
  The search of the end-to-end scenario of the specification, on the Canadian site. The
  parser of the example builds a page around the response text: the text is the content
  of the results-summary node, and an empty text gives a page without any node.
\<close>

definition example_page :: "string \<Rightarrow> node" where
  "example_page summary =
     Tag ''[document]'' []
       [Tag ''html'' []
          [Tag ''body'' []
             [Tag ''div'' [(''id'', ''searchCountPages'')] [NavigableString summary],
              Tag ''div'' [(''class'', ''row''), (''data-tn-component'', ''organicJob'')]
                [Tag ''a'' [(''data-tn-element'', ''jobTitle'')] [NavigableString ''Data Engineer'']],
              Tag ''div'' [(''id'', ''jobDescriptionText'')]
                [NavigableString '' Build '', Tag ''b'' [] [NavigableString ''pipelines''],
                 NavigableString ''. '']]]]"

definition example_parser :: "string \<Rightarrow> node" where
  "example_parser txt = (if txt = [] then Tag ''[document]'' [] [] else example_page txt)"

definition example_config :: JobFunnelConfigManager where
  "example_config =
     \<lparr>search_config =
        \<lparr>keywords_list = [''data'', ''engineer''], city = ''Toronto'', province_or_state = ''ON'',
         domain = ''ca'', radius = 12, remoteness = ANY, return_similar_results = False\<rparr>,
      bs4_parser = example_parser\<rparr>"

definition example_scraper :: scraper where
  "example_scraper = BaseIndeedScraper example_config"

definition example_session :: "string \<Rightarrow> session" where
  "example_session txt = \<lparr>web = (\<lambda>u. Inr txt), requested = []\<rparr>"

definition example_job :: Job where
  "example_job = \<lparr>key_id = Some ''abc123'', url = None, raw_scrape_data = None, description = None\<rparr>"

text \<open>A results summary that reports \<open>10\<^sup>3\<^sup>1\<^sup>0\<close> jobs.\<close>

definition huge_summary :: string where
  "huge_summary = ''Page 1 of 1'' @ replicate 310 CHR ''0'' @ '' jobs''"

section \<open>Properties\<close>

subsection \<open>Radius quantization\<close>

text \<open>
  C4: for every radius \<open>r \<ge> 0\<close> exactly one interval of the table
  \<open>[0,5) \<rightarrow> 0, [5,10) \<rightarrow> 5, [10,15) \<rightarrow> 10, [15,25) \<rightarrow> 15, [25,50) \<rightarrow> 25, [50,100) \<rightarrow> 50,
  [100,\<infinity>) \<rightarrow> 100\<close> holds \<open>r\<close>, and \<open>quantize_radius r\<close> is the value of that interval.
\<close>

theorem quantize_radius_table:
  "0 \<le> r \<Longrightarrow> table_values r = [quantize_radius r]"
  by (simp add: table_values_def radius_table_def quantize_radius_def)

theorem quantize_radius_table_witness:
  "(0::int) \<le> 12 \<and> table_values 12 = [quantize_radius 12] \<and> quantize_radius 12 = 10"
  using quantize_radius_table [of 12] by (simp add: quantize_radius_def)

text \<open>
  C5: for every integer radius, negative ones too, \<open>quantize_radius r\<close> is one of
  0, 5, 10, 15, 25, 50, 100, and \<open>quantize_radius\<close> is monotonically non-decreasing.
\<close>

theorem quantize_radius_range_mono:
  "quantize_radius r \<in> {0, 5, 10, 15, 25, 50, 100} \<and>
   (r1 \<le> r2 \<longrightarrow> quantize_radius r1 \<le> quantize_radius r2)"
  by (simp add: quantize_radius_def)

theorem quantize_radius_range_mono_witness:
  "quantize_radius (-3) \<in> {0, 5, 10, 15, 25, 50, 100} \<and>
   ((7::int) \<le> 60 \<and> quantize_radius 7 \<le> quantize_radius 60)"
  using quantize_radius_range_mono [of "-3" 7 60] by (simp add: quantize_radius_def)

subsection \<open>Search URL\<close>

text \<open>
  C3: every method other than \<open>get\<close> makes the search-URL builder fail with the
  unsupported-method condition, which the code raises as \<open>NotImplementedError\<close> for
  \<open>post\<close> and as the \<open>ValueError\<close> that names the method for any other value, \<open>None\<close>
  too; for \<open>get\<close>, with the remoteness of the search one of the five preferences of the
  search parameters, it raises nothing and returns an absolute URL, which starts with
  \<open>https://www.indeed.<domain>/jobs?q=\<close>.
\<close>

theorem get_search_url_methods:
  "(method \<noteq> Some ''get'' \<longrightarrow>
      get_search_url self method
        = Inl (if method = Some ''post'' then NotImplementedError []
               else ValueError (''No html method '' @ str_opt method @ '' exists''))) \<and>
   (remoteness (search_config (config self))
      \<in> {IN_PERSON, TEMPORARILY_REMOTE, PARTIALLY_REMOTE, FULLY_REMOTE, ANY} \<longrightarrow>
      (\<exists>u. get_search_url self (Some ''get'') = Inr u \<and>
           prefix (''https://www.indeed.'' @ domain (search_config (config self)) @ ''/jobs?q='') u))"
proof (intro conjI impI)
  assume "method \<noteq> Some ''get''"
  then show "get_search_url self method
      = Inl (if method = Some ''post'' then NotImplementedError []
             else ValueError (''No html method '' @ str_opt method @ '' exists''))"
    by (simp add: get_search_url_def)
next
  assume "remoteness (search_config (config self))
    \<in> {IN_PERSON, TEMPORARILY_REMOTE, PARTIALLY_REMOTE, FULLY_REMOTE, ANY}"
  then obtain rq where "REMOTENESS_TO_QUERY (remoteness (search_config (config self))) = Some rq"
    by (cases "remoteness (search_config (config self))") simp_all
  then show "\<exists>u. get_search_url self (Some ''get'') = Inr u \<and>
      prefix (''https://www.indeed.'' @ domain (search_config (config self)) @ ''/jobs?q='') u"
    by (simp add: get_search_url_def Let_def)
qed

theorem get_search_url_methods_witness:
  "get_search_url example_scraper (Some ''post'') = Inl (NotImplementedError []) \<and>
   get_search_url example_scraper (Some ''put'') = Inl (ValueError ''No html method put exists'') \<and>
   get_search_url example_scraper None = Inl (ValueError ''No html method None exists'') \<and>
   (\<exists>u. get_search_url example_scraper (Some ''get'') = Inr u \<and>
        prefix ''https://www.indeed.ca/jobs?q='' u)"
  using get_search_url_methods [of "Some ''post''" example_scraper]
    get_search_url_methods [of "Some ''put''" example_scraper]
    get_search_url_methods [of None example_scraper]
  by (simp add: example_scraper_def example_config_def BaseIndeedScraper_def str_opt_def)

subsection \<open>Setting the fields of a job\<close>

text \<open>
  C2: on a job whose \<open>key_id\<close> is unset, \<open>set(URL)\<close> fails with the assertion error;
  on a job whose \<open>key_id\<close> is \<open>abc123\<close>, it assigns the URL
  \<open>http://www.indeed.<domain>/viewjob?jk=abc123\<close>, a function of the domain only; and on
  a job whose raw scrape data is unset, \<open>set(DESCRIPTION)\<close> fails with the assertion
  error.
\<close>

theorem set_field_preconditions:
  "set_field self URL (job\<lparr>key_id := None\<rparr>) soup s = (Inl AssertionError, s) \<and>
   set_field self URL (job\<lparr>key_id := Some ''abc123''\<rparr>) soup s
     = (Inr (job\<lparr>key_id := Some ''abc123'',
                 url := Some (''http://www.indeed.'' @ domain (search_config (config self))
                              @ ''/viewjob?jk=abc123'')\<rparr>), s) \<and>
   set_field self DESCRIPTION (job\<lparr>raw_scrape_data := None\<rparr>) soup s = (Inl AssertionError, s)"
  by (simp add: set_field_def truthy_def str_opt_def)

text \<open>
  C10: a call of \<open>set\<close> that returns has written one attribute of the job: \<open>url\<close> for
  \<open>URL\<close>, the raw scrape data for \<open>RAW\<close>, \<open>description\<close> for \<open>DESCRIPTION\<close>. Every
  other attribute, those of the extension part too, is as before.
\<close>

theorem set_field_frame:
  "(set_field self URL job soup s = (Inr job', s') \<longrightarrow> job' = job\<lparr>url := url job'\<rparr>) \<and>
   (set_field self RAW job soup s = (Inr job', s') \<longrightarrow>
      job' = job\<lparr>raw_scrape_data := raw_scrape_data job'\<rparr>) \<and>
   (set_field self DESCRIPTION job soup s = (Inr job', s') \<longrightarrow>
      job' = job\<lparr>description := description job'\<rparr>)"
  by (auto simp: set_field_def split: if_splits option.splits sum.splits prod.splits)

theorem set_field_frame_witness:
  "(\<exists>j s'. set_field example_scraper URL example_job (example_page []) (example_session ''x'')
             = (Inr j, s') \<and>
           j = example_job\<lparr>url := Some ''http://www.indeed.ca/viewjob?jk=abc123''\<rparr>) \<and>
   (\<exists>j s'. set_field example_scraper RAW example_job (example_page []) (example_session ''x'')
             = (Inr j, s') \<and>
           j = example_job\<lparr>raw_scrape_data := Some (example_page ''x'')\<rparr>) \<and>
   (\<exists>j s'. set_field example_scraper DESCRIPTION
             (example_job\<lparr>raw_scrape_data := Some (example_page ''x'')\<rparr>) (example_page [])
             (example_session ''x'') = (Inr j, s') \<and>
           j = example_job\<lparr>raw_scrape_data := Some (example_page ''x''),
                           description := Some ''Build pipelines.''\<rparr>)"
proof -
  let ?s = "example_session ''x''"
  let ?j2 = "example_job\<lparr>raw_scrape_data := Some (example_page ''x'')\<rparr>"
  obtain j1 s1 where 1: "set_field example_scraper URL example_job (example_page []) ?s = (Inr j1, s1)"
    by (simp add: set_field_def truthy_def example_job_def)
  obtain j2 s2 where 2: "set_field example_scraper RAW example_job (example_page []) ?s = (Inr j2, s2)"
    by (simp add: set_field_def session_get_def example_session_def)
  obtain j3 s3 where 3: "set_field example_scraper DESCRIPTION ?j2 (example_page []) ?s = (Inr j3, s3)"
    by (simp add: set_field_def find_id_def example_page_def has_attr_def)
  have u: "url j1 = Some ''http://www.indeed.ca/viewjob?jk=abc123''"
    using 1 by (auto simp: set_field_def truthy_def example_job_def str_opt_def example_scraper_def
        example_config_def BaseIndeedScraper_def)
  have r: "raw_scrape_data j2 = Some (example_page ''x'')"
    using 2 by (auto simp: set_field_def session_get_def example_session_def example_scraper_def
        example_config_def BaseIndeedScraper_def example_parser_def)
  have d: "description j3 = Some ''Build pipelines.''"
    using 3 by (auto simp: set_field_def find_id_def example_page_def has_attr_def get_text_def
        strip_def isspace_def)
  show ?thesis
    using set_field_frame [of example_scraper example_job "example_page []" ?s j1 s1]
      set_field_frame [of example_scraper example_job "example_page []" ?s j2 s2]
      set_field_frame [of example_scraper ?j2 "example_page []" ?s j3 s3]
      1 2 3 u r d
    by simp
qed

subsection \<open>Result count\<close>

text \<open>
  C6: the results summary \<open>Jobs 1 to 50 of 1,234 results\<close> is parsed to the total 1234:
  the commas are removed and the first match of the pattern \<open>f (\d+) \<close> is read as an
  integer.
\<close>

theorem parse_num_res_example:
  "replace_char CHR '','' [] ''Jobs 1 to 50 of 1,234 results'' = ''Jobs 1 to 50 of 1234 results'' \<and>
   findall_f_digits ''Jobs 1 to 50 of 1234 results'' = [''1234''] \<and>
   parse_num_res ''Jobs 1 to 50 of 1,234 results'' = Inr 1234"
  by code_simp

text \<open>
  C7: when the page fetched for the search URL has no tag with the id
  \<open>searchCountPages\<close>, \<open>_get_num_search_result_pages\<close> raises the \<open>ValueError\<close> whose
  message holds the search URL, after the one request; it returns no page count.
\<close>

theorem no_results_found:
  assumes "web s search_url = Inr txt"
    and "\<forall>n \<in> set (descendants (bs4_parser (config self) txt)). \<not> has_attr ''id'' ''searchCountPages'' n"
  shows "get_num_search_result_pages self search_url max_pages s
           = (Inl (ValueError (no_results_message search_url)),
              s\<lparr>requested := requested s @ [search_url]\<rparr>) \<and>
         sublist search_url (no_results_message search_url)"
proof
  have "find_id ''searchCountPages'' (bs4_parser (config self) txt) = None"
    using assms(2) by (simp add: find_id_def find_None_iff)
  then show "get_num_search_result_pages self search_url max_pages s
      = (Inl (ValueError (no_results_message search_url)), s\<lparr>requested := requested s @ [search_url]\<rparr>)"
    using assms(1) by (simp add: get_num_search_result_pages_def session_get_def)
next
  show "sublist search_url (no_results_message search_url)"
    unfolding no_results_message_def by (rule sublist_appendI)
qed

theorem no_results_found_witness:
  "fst (get_num_search_result_pages example_scraper ''https://www.indeed.ca/jobs?q=x'' 0
         (example_session []))
     = Inl (ValueError (no_results_message ''https://www.indeed.ca/jobs?q=x'')) \<and>
   sublist ''https://www.indeed.ca/jobs?q=x'' (no_results_message ''https://www.indeed.ca/jobs?q=x'')"
  using no_results_found [of "example_session []" "''https://www.indeed.ca/jobs?q=x''" "[]"
      example_scraper 0]
  by (simp add: example_session_def example_scraper_def example_config_def BaseIndeedScraper_def
      example_parser_def)

subsection \<open>Page count: the division in floating point\<close>

text \<open>
  The exponent that \<open>binary_exponent\<close> computes is the binary order of magnitude of its
  argument, and rounding to the nearest integer stays within one half and between the
  integers around its argument.
\<close>

lemma bitlen_powi:
  assumes "0 < x"
  shows "(2::rat) powi (bitlen x - 1) \<le> of_int x" and "of_int x < (2::rat) powi (bitlen x)"
proof -
  have b: "1 \<le> bitlen x"
    using assms by (simp add: bitlen_alt_def)
  have "(2::int) ^ nat (bitlen x - 1) \<le> x" and "x < 2 ^ nat (bitlen x)"
    using bitlen_bounds [OF assms] by simp_all
  then have "(of_int (2 ^ nat (bitlen x - 1)) :: rat) \<le> of_int x"
    and "(of_int x :: rat) < of_int (2 ^ nat (bitlen x))"
    by (simp_all only: of_int_le_iff of_int_less_iff)
  then show "(2::rat) powi (bitlen x - 1) \<le> of_int x" and "of_int x < (2::rat) powi (bitlen x)"
    using b by (simp_all add: power_int_nonneg_exp)
qed

lemma binary_exponent_bounds:
  assumes "0 < q"
  shows "2 powi (binary_exponent q) \<le> q" and "q < 2 powi (binary_exponent q + 1)"
proof -
  obtain n d where nd: "quotient_of q = (n, d)"
    by (cases "quotient_of q")
  have d: "0 < d"
    using nd by (rule quotient_of_denom_pos)
  have q: "q = of_int n / of_int d"
    using nd by (rule quotient_of_div)
  have n: "0 < n"
    using assms d by (simp add: q zero_less_divide_iff)
  define k where "k = bitlen n - bitlen d"
  have dpos: "(0::rat) < of_int d"
    using d by simp
  have "q < 2 powi (bitlen n) / of_int d"
    unfolding q using bitlen_powi(2) [OF n] dpos by (simp add: divide_strict_right_mono)
  also have "\<dots> \<le> 2 powi (bitlen n) / 2 powi (bitlen d - 1)"
    using bitlen_powi(1) [OF d] dpos by (intro divide_left_mono mult_pos_pos) simp_all
  also have "\<dots> = 2 powi (k + 1)"
    by (simp add: k_def power_int_diff [symmetric] algebra_simps)
  finally have up: "q < 2 powi (k + 1)" .
  have "2 powi (k - 1) = 2 powi (bitlen n - 1) / (2::rat) powi (bitlen d)"
    by (simp add: k_def power_int_diff [symmetric] algebra_simps)
  also have "\<dots> \<le> of_int n / 2 powi (bitlen d)"
    using bitlen_powi(1) [OF n] by (intro divide_right_mono) simp_all
  also have "\<dots> \<le> q"
    unfolding q using bitlen_powi(2) [OF d] n dpos by (intro divide_left_mono) simp_all
  finally have lo: "2 powi (k - 1) \<le> q" .
  have e: "binary_exponent q = (if 2 powi k \<le> q then k else k - 1)"
    by (simp add: binary_exponent_def nd k_def)
  show "2 powi (binary_exponent q) \<le> q"
    using lo by (simp add: e)
  show "q < 2 powi (binary_exponent q + 1)"
    using up by (simp add: e not_le)
qed

lemma round_half_even_cases: "round_half_even x = \<lfloor>x\<rfloor> \<or> round_half_even x = \<lfloor>x\<rfloor> + 1"
  by (simp add: round_half_even_def Let_def)

lemma round_half_even_near:
  "x - 1 / 2 \<le> of_int (round_half_even x)" and "of_int (round_half_even x) \<le> x + 1 / 2"
  by (simp_all add: round_half_even_def Let_def; linarith)+

lemma round_half_even_le_int:
  assumes "x \<le> of_int N"
  shows "round_half_even x \<le> N"
proof (cases "x = of_int \<lfloor>x\<rfloor>")
  case True
  then have "round_half_even x = \<lfloor>x\<rfloor>"
    by (simp add: round_half_even_def Let_def)
  then show ?thesis
    using assms by (simp add: floor_le_iff)
next
  case False
  then have "of_int \<lfloor>x\<rfloor> < x"
    using of_int_floor_le [of x] by linarith
  then have "of_int \<lfloor>x\<rfloor> < (of_int N :: rat)"
    using assms by linarith
  then have "\<lfloor>x\<rfloor> < N"
    by (simp only: of_int_less_iff)
  then show ?thesis
    using round_half_even_cases [of x] by linarith
qed

lemma round_half_even_ge_int:
  assumes "of_int N \<le> x"
  shows "N \<le> round_half_even x"
proof -
  have "N \<le> \<lfloor>x\<rfloor>"
    using assms by (simp add: le_floor_iff)
  then show ?thesis
    using round_half_even_cases [of x] by linarith
qed

lemma exponent_of_count:
  assumes "0 < n"
  shows "- 6 \<le> binary_exponent (of_int n / 50)"
proof (rule ccontr)
  let ?q = "of_int n / 50 :: rat"
  assume "\<not> - 6 \<le> binary_exponent ?q"
  then have "binary_exponent ?q + 1 \<le> - 6"
    by simp
  then have "(2::rat) powi (binary_exponent ?q + 1) \<le> 2 powi (- 6)"
    by (intro power_int_increasing) simp_all
  moreover have "?q < 2 powi (binary_exponent ?q + 1)"
    using assms by (intro binary_exponent_bounds) simp
  moreover have "(1::rat) / 50 \<le> ?q"
    using assms by simp
  ultimately show False
    by (simp add: power_int_minus)
qed

lemma exponent_below:
  assumes "0 < q" and "q < 2 powi N"
  shows "binary_exponent q < N"
proof (rule ccontr)
  assume "\<not> binary_exponent q < N"
  then have "(2::rat) powi N \<le> 2 powi (binary_exponent q)"
    by (intro power_int_increasing) simp_all
  then show False
    using binary_exponent_bounds(1) [OF assms(1)] assms(2) by linarith
qed

lemma nearest_binary64_upper:
  assumes "0 < q" and "- 1022 \<le> binary_exponent q"
  shows "0 \<le> nearest_binary64 q" and "nearest_binary64 q \<le> 2 powi (binary_exponent q + 1)"
proof -
  let ?e = "binary_exponent q"
  let ?m = "round_half_even (q * 2 powi (52 - ?e))"
  have nb: "nearest_binary64 q = of_int ?m * 2 powi (?e - 52)"
    using assms(2) by (simp add: nearest_binary64_def Let_def max_def)
  have "q * 2 powi (52 - ?e) \<le> 2 powi (?e + 1) * 2 powi (52 - ?e)"
    using binary_exponent_bounds(2) [OF assms(1)] by (intro mult_right_mono) simp_all
  also have "\<dots> = 2 powi 53"
    by (simp add: power_int_add [symmetric])
  finally have "q * 2 powi (52 - ?e) \<le> of_int (2 ^ 53)"
    by simp
  then have "?m \<le> 2 ^ 53"
    by (rule round_half_even_le_int)
  then have "(of_int ?m :: rat) \<le> of_int (2 ^ 53)"
    by (simp only: of_int_le_iff)
  then have "of_int ?m * 2 powi (?e - 52) \<le> (2::rat) powi 53 * 2 powi (?e - 52)"
    by (intro mult_right_mono) simp_all
  also have "\<dots> = 2 powi (53 + (?e - 52))"
    by (subst power_int_add) simp_all
  also have "53 + (?e - 52) = ?e + 1"
    by simp
  finally show "nearest_binary64 q \<le> 2 powi (?e + 1)"
    by (simp add: nb)
  have "0 \<le> q * 2 powi (52 - ?e)"
    using assms(1) by simp
  then have "0 \<le> \<lfloor>q * 2 powi (52 - ?e)\<rfloor>"
    by simp
  then have "0 \<le> ?m"
    using round_half_even_cases [of "q * 2 powi (52 - ?e)"] by linarith
  then show "0 \<le> nearest_binary64 q"
    by (simp add: nb)
qed

lemma true_divide_50_nonneg:
  assumes "0 \<le> n" and "n < 50 * 2 ^ 1023"
  shows "\<exists>r. true_divide n 50 = Inr r \<and> 0 \<le> r"
proof (cases "n = 0")
  case True
  then show ?thesis
    by (simp add: true_divide_def)
next
  case False
  let ?q = "of_int n / 50 :: rat"
  have n: "0 < n"
    using assms(1) False by simp
  then have q: "0 < ?q"
    by simp
  have lo: "- 1022 \<le> binary_exponent ?q"
    using exponent_of_count [OF n] by simp
  have "?q < 2 powi 1023"
    using assms(2) by (simp add: divide_less_eq)
  then have "binary_exponent ?q < 1023"
    by (rule exponent_below [OF q])
  then have "(2::rat) powi (binary_exponent ?q + 1) \<le> 2 powi 1023"
    by (intro power_int_increasing) simp_all
  then have "nearest_binary64 ?q \<le> 2 powi 1023"
    using nearest_binary64_upper(2) [OF q lo] by linarith
  then have "nearest_binary64 ?q < 2 ^ 1024"
    by simp
  then show ?thesis
    using n nearest_binary64_upper(1) [OF q lo] by (simp add: true_divide_def Let_def abs_of_pos)
qed

lemma nearest_binary64_lower:
  assumes "0 < q" and "- 1022 \<le> binary_exponent q"
  shows "2 powi (binary_exponent q) \<le> nearest_binary64 q"
proof -
  let ?e = "binary_exponent q"
  let ?m = "round_half_even (q * 2 powi (52 - ?e))"
  have nb: "nearest_binary64 q = of_int ?m * 2 powi (?e - 52)"
    using assms(2) by (simp add: nearest_binary64_def Let_def max_def)
  have "(2::rat) powi 52 = 2 powi (?e + (52 - ?e))"
    by simp
  also have "\<dots> = 2 powi ?e * 2 powi (52 - ?e)"
    by (subst power_int_add) simp_all
  also have "\<dots> \<le> q * 2 powi (52 - ?e)"
    using binary_exponent_bounds(1) [OF assms(1)] by (intro mult_right_mono) simp_all
  finally have "of_int (2 ^ 52) \<le> q * 2 powi (52 - ?e)"
    by simp
  then have "2 ^ 52 \<le> ?m"
    by (rule round_half_even_ge_int)
  then have "(of_int (2 ^ 52) :: rat) \<le> of_int ?m"
    by (simp only: of_int_le_iff)
  then have "(2::rat) powi 52 \<le> of_int ?m"
    by simp
  then have "(2::rat) powi 52 * 2 powi (?e - 52) \<le> of_int ?m * 2 powi (?e - 52)"
    by (intro mult_right_mono) simp_all
  moreover have "(2::rat) powi 52 * 2 powi (?e - 52) = 2 powi (52 + (?e - 52))"
    by (subst power_int_add) simp_all
  moreover have "52 + (?e - 52) = ?e"
    by simp
  ultimately show ?thesis
    by (simp only: nb)
qed

lemma true_divide_50_overflow:
  assumes "50 * 2 ^ 1024 \<le> n"
  shows "true_divide n 50 = Inl OverflowError"
proof -
  let ?q = "of_int n / 50 :: rat"
  have n: "0 < n"
    using assms by (simp add: order_less_le_trans [of 0 "50 * 2 ^ 1024" n])
  then have q: "0 < ?q"
    by simp
  have "(of_int (50 * 2 ^ 1024) :: rat) \<le> of_int n"
    using assms by (simp only: of_int_le_iff)
  then have big: "(2::rat) powi 1024 \<le> ?q"
    by (simp add: le_divide_eq)
  have e: "1024 \<le> binary_exponent ?q"
  proof (rule ccontr)
    assume "\<not> 1024 \<le> binary_exponent ?q"
    then have "(2::rat) powi (binary_exponent ?q + 1) \<le> 2 powi 1024"
      by (intro power_int_increasing) simp_all
    then show False
      using binary_exponent_bounds(2) [OF q] big by linarith
  qed
  then have "(2::rat) powi 1024 \<le> 2 powi (binary_exponent ?q)"
    by (intro power_int_increasing) simp_all
  moreover have "2 powi (binary_exponent ?q) \<le> nearest_binary64 ?q"
    using e by (intro nearest_binary64_lower [OF q]) simp
  ultimately have "(2::rat) ^ 1024 \<le> nearest_binary64 ?q"
    by simp
  then show ?thesis
    using n by (simp add: true_divide_def Let_def abs_of_pos del: power_numeral)
qed

text \<open>
  Below \<open>50 \<times> 2\<^sup>4\<^sup>8\<close> results the float quotient has the ceiling of the exact quotient:
  there the page count is \<open>\<lceil>n / 50\<rceil>\<close>, capped by a positive \<open>max_pages\<close>.
\<close>

lemma true_divide_50_ceiling:
  assumes "0 \<le> n" and "n < 50 * 2 ^ 48"
  shows "\<exists>r. true_divide n 50 = Inr r \<and> \<lceil>r\<rceil> = \<lceil>of_int n / 50 :: rat\<rceil>"
proof (cases "n = 0")
  case True
  then show ?thesis
    by (simp add: true_divide_def)
next
  case False
  let ?q = "of_int n / 50 :: rat"
  let ?e = "binary_exponent ?q"
  define c where "c = \<lceil>?q\<rceil>"
  define k where "k = nat (52 - ?e)"
  define m where "m = round_half_even (?q * 2 ^ k)"
  have n: "0 < n"
    using assms(1) False by simp
  then have q: "0 < ?q"
    by simp
  have lo: "- 6 \<le> ?e"
    by (rule exponent_of_count [OF n])
  have "?q < 2 powi 48"
    using assms(2) by (simp add: divide_less_eq)
  then have hi: "?e < 48"
    by (rule exponent_below [OF q])
  have k: "52 - ?e = int k" "?e - 52 = - int k" "5 \<le> k"
    using hi by (simp_all add: k_def)
  have p: "(32::rat) \<le> 2 ^ k"
    using power_increasing [of 5 k "2::rat"] k(3) by simp
  have p1: "(2::rat) powi (52 - ?e) = 2 ^ k"
    by (simp only: k(1) power_int_of_nat)
  have p2: "(2::rat) powi (?e - 52) = 1 / 2 ^ k"
    by (simp only: k(2) power_int_minus power_int_of_nat inverse_eq_divide)
  have "max ?e (- 1022) = ?e"
    using lo by simp
  then have "nearest_binary64 ?q = of_int (round_half_even (?q * 2 powi (52 - ?e))) * 2 powi (?e - 52)"
    by (simp only: nearest_binary64_def Let_def)
  then have nb: "nearest_binary64 ?q = of_int m / 2 ^ k"
    by (simp only: p1 p2 m_def times_divide_eq_right mult_1_right)
  have c1: "?q \<le> of_int c"
    by (simp add: c_def)
  have "of_int c - 1 < ?q"
    unfolding c_def by linarith
  then have "50 * (c - 1) < n"
    by (simp add: less_divide_eq)
  then have "50 * (c - 1) + 1 \<le> n"
    by simp
  then have "(of_int (50 * (c - 1) + 1) :: rat) \<le> of_int n"
    by (simp only: of_int_le_iff)
  then have c2: "of_int c - 1 + 1 / 50 \<le> ?q"
    by simp
  have "?q * 2 ^ k \<le> of_int c * 2 ^ k"
    using c1 by (intro mult_right_mono) simp_all
  then have "?q * 2 ^ k \<le> of_int (c * 2 ^ k)"
    by simp
  then have "m \<le> c * 2 ^ k"
    unfolding m_def by (rule round_half_even_le_int)
  then have "(of_int m :: rat) \<le> of_int (c * 2 ^ k)"
    by (simp only: of_int_le_iff)
  then have up: "of_int m / 2 ^ k \<le> (of_int c :: rat)"
    by (simp add: divide_le_eq)
  have "?q * 2 ^ k - 1 / 2 \<le> of_int m"
    unfolding m_def by (rule round_half_even_near)
  then have "(?q * 2 ^ k - 1 / 2) / 2 ^ k \<le> of_int m / 2 ^ k"
    by (intro divide_right_mono) simp_all
  moreover have "(?q * 2 ^ k - 1 / 2) / 2 ^ k = ?q - 1 / (2 * 2 ^ k)"
    by (simp add: diff_divide_distrib)
  moreover have "1 / (2 * 2 ^ k) \<le> (1::rat) / 64"
    using p by (intro divide_left_mono) simp_all
  ultimately have "of_int c - 1 + 1 / 50 - 1 / 64 \<le> of_int m / (2 ^ k :: rat)"
    using c2 by linarith
  then have down: "of_int c - 1 < of_int m / (2 ^ k :: rat)"
    by linarith
  have ceil: "\<lceil>of_int m / (2 ^ k :: rat)\<rceil> = c"
    using down up by (rule ceiling_unique)
  have "of_int c < ?q + 1"
    unfolding c_def by linarith
  also have "\<dots> < 2 ^ 48 + 1"
    using assms(2) by (simp add: divide_less_eq)
  also have "\<dots> \<le> (2::rat) ^ 1024"
    by simp
  finally have "of_int m / 2 ^ k < (2::rat) ^ 1024"
    using up by linarith
  then have "true_divide n 50 = Inr (of_int m / 2 ^ k)"
    using n by (simp add: true_divide_def Let_def abs_of_pos nb del: power_numeral)
  then show ?thesis
    using ceil by (simp add: c_def)
qed

lemma max_results_per_page_init: "max_results_per_page (BaseIndeedScraper cfg) = 50"
  by (simp add: BaseIndeedScraper_def MAX_RESULTS_PER_INDEED_PAGE_def)

lemma pages_of_num_res_in_range:
  assumes "0 \<le> n" and "n < 50 * 2 ^ 48"
  shows "pages_of_num_res (BaseIndeedScraper cfg) n max_pages
           = Inr (if max_pages = 0 \<or> \<lceil>of_int n / 50 :: rat\<rceil> < max_pages
                  then \<lceil>of_int n / 50 :: rat\<rceil> else max_pages)"
proof -
  obtain r where "true_divide n 50 = Inr r" and "\<lceil>r\<rceil> = \<lceil>of_int n / 50 :: rat\<rceil>"
    using true_divide_50_ceiling [OF assms] by blast
  then show ?thesis
    by (simp add: pages_of_num_res_def max_results_per_page_init)
qed

lemma pages_of_num_res_negative_cap:
  assumes "0 \<le> n" and "n < 50 * 2 ^ 1023" and "max_pages < 0"
  shows "pages_of_num_res (BaseIndeedScraper cfg) n max_pages = Inr max_pages"
proof -
  obtain r where r: "true_divide n 50 = Inr r" "0 \<le> r"
    using true_divide_50_nonneg [OF assms(1,2)] by blast
  then have "0 \<le> \<lceil>r\<rceil>"
    by simp
  then have "\<not> \<lceil>r\<rceil> < max_pages" and "max_pages \<noteq> 0"
    using assms(3) by linarith+
  then show ?thesis
    using r(1) by (simp add: pages_of_num_res_def max_results_per_page_init Let_def)
qed

text \<open>A parsed result count is never negative.\<close>

lemma digit_val_nonneg: "isdigit c \<Longrightarrow> 0 \<le> digit_val c"
  by (auto simp: isdigit_def digit_val_def)

lemma int_of_digits_nonneg:
  assumes "\<forall>c \<in> set ds. isdigit c"
  shows "0 \<le> int_of_digits ds"
proof -
  have "0 \<le> a \<Longrightarrow> \<forall>c \<in> set ds. isdigit c \<Longrightarrow> 0 \<le> foldl (\<lambda>a c. 10 * a + digit_val c) a ds" for a
    by (induction ds arbitrary: a) (auto simp: digit_val_nonneg)
  then show ?thesis
    using assms by (simp add: int_of_digits_def)
qed

lemma findall_f_digits_digits:
  "ds \<in> set (findall_f_digits s) \<Longrightarrow> \<forall>c \<in> set ds. isdigit c"
proof (induction s rule: findall_f_digits.induct)
  case 1
  then show ?case by simp
next
  case (2 c cs)
  let ?m = "c = CHR ''f'' \<and> take 1 cs = '' '' \<and> takeWhile isdigit (drop 1 cs) \<noteq> []
         \<and> take 1 (dropWhile isdigit (drop 1 cs)) = '' ''"
  show ?case
  proof (cases ?m)
    case True
    then have "findall_f_digits (c # cs) = takeWhile isdigit (drop 1 cs)
        # findall_f_digits (drop 1 (dropWhile isdigit (drop 1 cs)))"
      by (subst findall_f_digits.simps(2)) (rule if_P [OF True])
    then have "ds = takeWhile isdigit (drop 1 cs)
        \<or> ds \<in> set (findall_f_digits (drop 1 (dropWhile isdigit (drop 1 cs))))"
      using "2.prems" by simp
    then show ?thesis
    proof
      assume "ds = takeWhile isdigit (drop 1 cs)"
      then show ?thesis
        by (auto dest: set_takeWhileD)
    next
      assume "ds \<in> set (findall_f_digits (drop 1 (dropWhile isdigit (drop 1 cs))))"
      then show ?thesis
        using True by (intro "2.IH"(1)) simp_all
    qed
  next
    case False
    then have "findall_f_digits (c # cs) = findall_f_digits cs"
      by (subst findall_f_digits.simps(2)) (rule if_not_P [OF False])
    then show ?thesis
      using False "2.prems" by (intro "2.IH"(2)) simp_all
  qed
qed

lemma parse_num_res_nonneg:
  assumes "parse_num_res s = Inr n"
  shows "0 \<le> n"
proof -
  obtain ds rest where f: "findall_f_digits (replace_char CHR '','' [] s) = ds # rest"
    and n: "n = int_of_digits ds"
    using assms by (auto simp: parse_num_res_def split: list.splits)
  have "ds \<in> set (findall_f_digits (replace_char CHR '','' [] s))"
    by (simp add: f)
  then show ?thesis
    unfolding n by (intro int_of_digits_nonneg findall_f_digits_digits)
qed

lemma get_num_search_result_pages_in_range:
  assumes "web s u = Inr txt"
    and "find_id ''searchCountPages'' (bs4_parser cfg txt) = Some num_res"
    and "first_content_stripped num_res = Inr summary"
    and "parse_num_res summary = Inr n"
    and "n < 50 * 2 ^ 48"
  shows "fst (get_num_search_result_pages (BaseIndeedScraper cfg) u max_pages s)
           = Inr (if max_pages = 0 \<or> \<lceil>of_int n / 50 :: rat\<rceil> < max_pages
                  then \<lceil>of_int n / 50 :: rat\<rceil> else max_pages)"
proof -
  have "0 \<le> n"
    using assms(4) by (rule parse_num_res_nonneg)
  then have "pages_of_num_res (BaseIndeedScraper cfg) n max_pages
      = Inr (if max_pages = 0 \<or> \<lceil>of_int n / 50 :: rat\<rceil> < max_pages
             then \<lceil>of_int n / 50 :: rat\<rceil> else max_pages)"
    using assms(5) by (rule pages_of_num_res_in_range)
  moreover have "config (BaseIndeedScraper cfg) = cfg"
    by (simp add: BaseIndeedScraper_def)
  ultimately show ?thesis
    using assms(1-4) by (simp add: get_num_search_result_pages_def session_get_def)
qed

lemma get_num_search_result_pages_negative_cap:
  assumes "web s u = Inr txt"
    and "find_id ''searchCountPages'' (bs4_parser cfg txt) = Some num_res"
    and "first_content_stripped num_res = Inr summary"
    and "parse_num_res summary = Inr n"
    and "n < 50 * 2 ^ 1023"
    and "max_pages < 0"
  shows "fst (get_num_search_result_pages (BaseIndeedScraper cfg) u max_pages s) = Inr max_pages"
proof -
  have "0 \<le> n"
    using assms(4) by (rule parse_num_res_nonneg)
  then have "pages_of_num_res (BaseIndeedScraper cfg) n max_pages = Inr max_pages"
    using assms(5,6) by (rule pages_of_num_res_negative_cap)
  moreover have "config (BaseIndeedScraper cfg) = cfg"
    by (simp add: BaseIndeedScraper_def)
  ultimately show ?thesis
    using assms(1-4) by (simp add: get_num_search_result_pages_def session_get_def)
qed

lemma example_count:
  assumes "txt \<noteq> []"
  shows "fst (get_num_search_result_pages example_scraper u m (example_session txt))
           = (case parse_num_res (strip txt) of
                Inl e \<Rightarrow> Inl e
              | Inr n \<Rightarrow> pages_of_num_res example_scraper n m)"
proof -
  have "find_id ''searchCountPages'' (example_page txt)
      = Some (Tag ''div'' [(''id'', ''searchCountPages'')] [NavigableString txt])"
    by (simp add: find_id_def example_page_def has_attr_def)
  then show ?thesis
    using assms
    by (simp add: get_num_search_result_pages_def session_get_def example_session_def
        example_scraper_def example_config_def BaseIndeedScraper_def example_parser_def
        first_content_stripped_def split: sum.splits)
qed

text \<open>
  C1: the page count is the ceiling of the total over the page size of 50, capped by a
  positive \<open>max_pages\<close> and uncapped when \<open>max_pages\<close> is 0. The code computes the quotient
  as a float, so the property holds for the totals below \<open>50 \<times> 2\<^sup>4\<^sup>8\<close>
  (\<open>get_num_search_result_pages_in_range\<close>) and fails above: for the summary
  \<open>Page 1 of 14,073,748,835,532,801 jobs\<close> the total is \<open>50 \<times> 2\<^sup>4\<^sup>8 + 1\<close>, the float quotient
  is \<open>2\<^sup>4\<^sup>8\<close>, and the page count returned is \<open>2\<^sup>4\<^sup>8\<close>, one less than the ceiling.
\<close>

theorem page_count_float_rounding:
  "parse_num_res ''Page 1 of 14,073,748,835,532,801 jobs'' = Inr 14073748835532801 \<and>
   true_divide 14073748835532801 50 = Inr 281474976710656 \<and>
   fst (get_num_search_result_pages example_scraper ''https://www.indeed.ca/jobs?q=x'' 0
          (example_session ''Page 1 of 14,073,748,835,532,801 jobs'')) = Inr 281474976710656 \<and>
   \<lceil>(14073748835532801::rat) / 50\<rceil> = 281474976710657"
  by code_simp

text \<open>
  C9: with a negative \<open>max_pages\<close> the function returns \<open>max_pages\<close>, for every total
  whose page count is computed: the page count is not negative, so it is never below
  \<open>max_pages\<close> (\<open>get_num_search_result_pages_negative_cap\<close>, for the totals below \<open>50 \<times> 2\<^sup>1\<^sup>0\<^sup>2\<^sup>3\<close>).
  For a total from \<open>50 \<times> 2\<^sup>1\<^sup>0\<^sup>2\<^sup>4\<close> on the float division raises \<open>OverflowError\<close>
  instead (\<open>true_divide_50_overflow\<close>): so it is for the summary that reports
  \<open>10\<^sup>3\<^sup>1\<^sup>0\<close> jobs, with \<open>max_pages = -1\<close>.
\<close>

theorem page_count_float_overflow:
  "parse_num_res huge_summary = Inr (10 ^ 310) \<and>
   pages_of_num_res example_scraper (10 ^ 310) (- 1) = Inl OverflowError \<and>
   fst (get_num_search_result_pages example_scraper ''https://www.indeed.ca/jobs?q=x'' (- 1)
          (example_session huge_summary)) = Inl OverflowError"
proof -
  have s: "strip huge_summary = huge_summary"
    by code_simp
  have p: "parse_num_res huge_summary = Inr (10 ^ 310)"
    by code_simp
  have "true_divide (10 ^ 310) 50 = Inl OverflowError"
    by (rule true_divide_50_overflow) simp
  then have o: "pages_of_num_res example_scraper (10 ^ 310) (- 1) = Inl OverflowError"
    by (simp add: pages_of_num_res_def example_scraper_def max_results_per_page_init
        del: power_numeral)
  have "huge_summary \<noteq> []"
    by (simp add: huge_summary_def)
  then have "fst (get_num_search_result_pages example_scraper ''https://www.indeed.ca/jobs?q=x'' (- 1)
      (example_session huge_summary)) = Inl OverflowError"
    using example_count [of huge_summary "''https://www.indeed.ca/jobs?q=x''" "- 1"] s p o
    by (simp del: power_numeral)
  then show ?thesis
    using p o by (simp del: power_numeral)
qed

subsection \<open>Fetching the result pages\<close>

lemma run_tasks_requested:
  "requested (fst (run_tasks self search pages st))
     = requested (fst st)
       @ map (\<lambda>page. search @ ''&start='' @ str_int (page * max_results_per_page self)) pages"
  by (induction pages arbitrary: st)
     (auto simp: get_job_soups_from_search_page_def session_get_def split: prod.splits sum.splits)

lemma get_num_search_result_pages_requested:
  "requested (snd (get_num_search_result_pages self u m s)) = requested s @ [u]"
  by (auto simp: get_num_search_result_pages_def session_get_def
      split: prod.splits sum.splits option.splits)

lemma range_int_indices: "set (range_int n) = {0..<n} \<and> distinct (range_int n)"
  by (auto simp: range_int_def)

lemma listings_requested:
  assumes "get_search_url self (Some ''get'') = Inr u"
    and "get_num_search_result_pages self u 0 s = (Inr n, s')"
  shows "\<exists>soups s''. get_job_soups_from_search_result_listings self s = (Inr soups, s'') \<and>
           requested s'' = requested s @ u
             # map (\<lambda>page. u @ ''&start='' @ str_int (page * max_results_per_page self)) (range_int n)"
proof -
  obtain s'' soups where r: "run_tasks self u (range_int n) (s', []) = (s'', soups)"
    by (cases "run_tasks self u (range_int n) (s', [])")
  have "requested s' = requested s @ [u]"
    using get_num_search_result_pages_requested [of self u 0 s] assms(2) by simp
  moreover have "requested s'' = requested s'
      @ map (\<lambda>page. u @ ''&start='' @ str_int (page * max_results_per_page self)) (range_int n)"
    using run_tasks_requested [of self u "range_int n" "(s', [])"] r by simp
  ultimately show ?thesis
    using assms r by (simp add: get_job_soups_from_search_result_listings_def)
qed

lemma scenario_search_url:
  "get_search_url example_scraper (Some ''get'')
     = Inr ''https://www.indeed.ca/jobs?q=data+engineer&l=Toronto%2C+ON&radius=10&limit=50&filter=0''"
  by code_simp

lemma scenario_pages:
  "fst (get_num_search_result_pages example_scraper
          ''https://www.indeed.ca/jobs?q=data+engineer&l=Toronto%2C+ON&radius=10&limit=50&filter=0'' 0
          (example_session ''Page 1 of 75 jobs'')) = Inr 2"
  by code_simp

lemma scenario_requested:
  "requested (snd (get_job_soups_from_search_result_listings example_scraper
                     (example_session ''Page 1 of 75 jobs'')))
     = [''https://www.indeed.ca/jobs?q=data+engineer&l=Toronto%2C+ON&radius=10&limit=50&filter=0'',
        ''https://www.indeed.ca/jobs?q=data+engineer&l=Toronto%2C+ON&radius=10&limit=50&filter=0&start=0'',
        ''https://www.indeed.ca/jobs?q=data+engineer&l=Toronto%2C+ON&radius=10&limit=50&filter=0&start=50'']"
  by code_simp

lemma scenario_radius: "quantize_radius (radius (search_config example_config)) = 10"
  by code_simp

text \<open>
  C8: the tasks of the pool request, for each page they are given, the search URL with
  \<open>&start=\<close> and the page times the page size appended, once, whatever the order of the
  tasks; \<open>range n\<close> holds each page index of \<open>[0, n)\<close> once; so a scrape whose search URL is
  \<open>u\<close> and whose page count is \<open>n\<close> requests \<open>u\<close> (for the count) and then one offset URL
  for each page index. In the scenario of the specification (radius 12, page size 50, 75
  results) the search URL has \<open>radius=10\<close>, and after the request for the count there are
  two page requests, with \<open>start=0\<close> and \<open>start=50\<close>.
\<close>

theorem page_requests:
  "requested (fst (run_tasks self search pages (s, soups)))
     = requested s
       @ map (\<lambda>page. search @ ''&start='' @ str_int (page * max_results_per_page self)) pages \<and>
   set (range_int n) = {0..<n} \<and> distinct (range_int n) \<and>
   (get_search_url self (Some ''get'') = Inr u \<and>
    get_num_search_result_pages self u 0 s = (Inr n, s') \<longrightarrow>
      (\<exists>soups' s''. get_job_soups_from_search_result_listings self s = (Inr soups', s'') \<and>
         requested s'' = requested s @ u
           # map (\<lambda>page. u @ ''&start='' @ str_int (page * max_results_per_page self)) (range_int n))) \<and>
   quantize_radius (radius (search_config example_config)) = 10 \<and>
   get_search_url example_scraper (Some ''get'')
     = Inr ''https://www.indeed.ca/jobs?q=data+engineer&l=Toronto%2C+ON&radius=10&limit=50&filter=0'' \<and>
   fst (get_num_search_result_pages example_scraper
          ''https://www.indeed.ca/jobs?q=data+engineer&l=Toronto%2C+ON&radius=10&limit=50&filter=0'' 0
          (example_session ''Page 1 of 75 jobs'')) = Inr 2 \<and>
   requested (snd (get_job_soups_from_search_result_listings example_scraper
                     (example_session ''Page 1 of 75 jobs'')))
     = [''https://www.indeed.ca/jobs?q=data+engineer&l=Toronto%2C+ON&radius=10&limit=50&filter=0'',
        ''https://www.indeed.ca/jobs?q=data+engineer&l=Toronto%2C+ON&radius=10&limit=50&filter=0&start=0'',
        ''https://www.indeed.ca/jobs?q=data+engineer&l=Toronto%2C+ON&radius=10&limit=50&filter=0&start=50'']"
proof (intro conjI impI)
  show "requested (fst (run_tasks self search pages (s, soups)))
      = requested s
        @ map (\<lambda>page. search @ ''&start='' @ str_int (page * max_results_per_page self)) pages"
    using run_tasks_requested [of self search pages "(s, soups)"] by simp
next
  show "set (range_int n) = {0..<n}" and "distinct (range_int n)"
    using range_int_indices [of n] by simp_all
next
  assume "get_search_url self (Some ''get'') = Inr u \<and>
    get_num_search_result_pages self u 0 s = (Inr n, s')"
  then show "\<exists>soups' s''. get_job_soups_from_search_result_listings self s = (Inr soups', s'') \<and>
      requested s'' = requested s @ u
        # map (\<lambda>page. u @ ''&start='' @ str_int (page * max_results_per_page self)) (range_int n)"
    using listings_requested [of self u s n s'] by simp
qed (rule scenario_radius scenario_search_url scenario_pages scenario_requested)+

theorem page_requests_witness:
  "\<exists>soups' s''.
     get_job_soups_from_search_result_listings example_scraper (example_session ''Page 1 of 230 jobs'')
       = (Inr soups', s'') \<and>
     requested s''
       = ''https://www.indeed.ca/jobs?q=data+engineer&l=Toronto%2C+ON&radius=10&limit=50&filter=0''
         # map (\<lambda>page. ''https://www.indeed.ca/jobs?q=data+engineer&l=Toronto%2C+ON&radius=10&limit=50&filter=0''
                        @ ''&start='' @ str_int (page * 50)) [0, 1, 2, 3, 4]"
proof -
  let ?u = "''https://www.indeed.ca/jobs?q=data+engineer&l=Toronto%2C+ON&radius=10&limit=50&filter=0''"
  let ?s = "example_session ''Page 1 of 230 jobs''"
  have "fst (get_num_search_result_pages example_scraper ?u 0 ?s) = Inr 5"
    by code_simp
  then have n: "get_num_search_result_pages example_scraper ?u 0 ?s
      = (Inr 5, snd (get_num_search_result_pages example_scraper ?u 0 ?s))"
    by (metis prod.collapse)
  have r: "range_int 5 = [0, 1, 2, 3, 4]"
    by code_simp
  have m: "max_results_per_page example_scraper = 50"
    by (simp add: example_scraper_def BaseIndeedScraper_def MAX_RESULTS_PER_INDEED_PAGE_def)
  have e: "requested ?s = []"
    by (simp add: example_session_def)
  show ?thesis
    using page_requests [of example_scraper "[]" "[]" ?s "[]" 5 ?u
        "snd (get_num_search_result_pages example_scraper ?u 0 ?s)"]
      scenario_search_url n r m e
    by simp
qed

end
